theory Spec2Isabelle
  imports Main "HOL-Library.Word"
begin

unbundle bit_operations_syntax

section \<open>Bytes, errors and Python's conversions\<close>

text \<open>
  The three programs of the repository share one frame codec:
  \<^item> \<^verbatim>\<open>modbus_mqtt_bridge_json.py\<close>, the JSON bridge (suffix \<open>_json\<close> below);
  \<^item> \<^verbatim>\<open>raw_modbus_test.py\<close>, the interactive command line (suffix \<open>_cli\<close>);
  \<^item> \<^verbatim>\<open>modbus_mqtt_bridge.py\<close>, the text-command MQTT bridge (suffix \<open>_mqtt\<close>).
  A Python \<^verbatim>\<open>bytes\<close> object is a list of 8-bit words; a Python \<^verbatim>\<open>int\<close> is an \<open>int\<close>.
\<close>

type_synonym byte = "8 word"

datatype error =
    InvalidChannel   \<comment> \<open>\<^verbatim>\<open>ValueError("channel must be 1-8")\<close>\<close>
  | InvalidAction    \<comment> \<open>\<^verbatim>\<open>ValueError("action must be 'on' or 'off'")\<close>\<close>
  | BytesRange       \<comment> \<open>\<^verbatim>\<open>ValueError("bytes must be in range(0, 256)")\<close>, raised by \<^verbatim>\<open>bytes([...])\<close>\<close>
  | OverflowError    \<comment> \<open>\<^verbatim>\<open>int.to_bytes\<close>: the integer does not fit (or is negative)\<close>
  | IndexError       \<comment> \<open>\<^verbatim>\<open>resp[4]\<close> past the end of the buffer\<close>

definition WRITE_REG :: int where
  "WRITE_REG = 0x06"

definition READ_REG :: int where
  "READ_REG = 0x03"

text \<open>\<^verbatim>\<open>bytes([x0, x1, ...])\<close>: every element must lie in \<open>range(0, 256)\<close>.\<close>

definition in_byte_range :: "int \<Rightarrow> bool" where
  "in_byte_range x = (0 \<le> x \<and> x < 256)"

definition bytes_of :: "int list \<Rightarrow> error + byte list" where
  "bytes_of xs = (if list_all in_byte_range xs then Inr (map word_of_int xs) else Inl BytesRange)"

text \<open>\<^verbatim>\<open>n.to_bytes(2, byteorder='little')\<close>: low byte first; fails outside \<open>[0, 2^16)\<close>.\<close>

definition to_bytes2_little :: "int \<Rightarrow> error + byte list" where
  "to_bytes2_little n =
     (if 0 \<le> n \<and> n < 65536 then Inr [word_of_int (n AND 0xFF), word_of_int (drop_bit 8 n)]
      else Inl OverflowError)"

text \<open>\<^verbatim>\<open>b[i]\<close> for an index \<open>i \<ge> 0\<close>: \<^verbatim>\<open>IndexError\<close> past the end.\<close>

definition index :: "byte list \<Rightarrow> nat \<Rightarrow> error + byte" where
  "index b i = (if i < length b then Inr (b ! i) else Inl IndexError)"

section \<open>CRC16\<close>

text \<open>
  \<^verbatim>\<open>crc16\<close> is the same text in all three files. The register \<^verbatim>\<open>crc\<close> is a Python
  integer; one pass of the inner loop body is \<open>crc_bit\<close>, \<^verbatim>\<open>for _ in range(8)\<close> is
  \<open>crc_bits 8\<close>, and the outer loop over the bytes is \<open>crc_loop\<close>.
\<close>

definition crc_bit :: "int \<Rightarrow> int" where
  "crc_bit crc = (if crc AND 1 \<noteq> 0 then drop_bit 1 crc XOR 0xA001 else drop_bit 1 crc)"

fun crc_bits :: "nat \<Rightarrow> int \<Rightarrow> int" where
  "crc_bits 0 crc = crc"
| "crc_bits (Suc n) crc = crc_bits n (crc_bit crc)"

definition crc_byte :: "int \<Rightarrow> byte \<Rightarrow> int" where
  "crc_byte crc b = crc_bits 8 (crc XOR uint b)"

fun crc_loop :: "int \<Rightarrow> byte list \<Rightarrow> int" where
  "crc_loop crc [] = crc"
| "crc_loop crc (b # data) = crc_loop (crc_byte crc b) data"

definition crc16 :: "byte list \<Rightarrow> error + byte list" where
  "crc16 data = to_bytes2_little (crc_loop 0xFFFF data)"

text \<open>
  Every value the register takes while \<^verbatim>\<open>crc16\<close> runs: the initial value, and per
  byte the value after \<^verbatim>\<open>crc ^= byte\<close> and the value after each of the eight shift steps.
\<close>

fun crc_bits_trace :: "nat \<Rightarrow> int \<Rightarrow> int list" where
  "crc_bits_trace 0 crc = []"
| "crc_bits_trace (Suc n) crc = crc_bit crc # crc_bits_trace n (crc_bit crc)"

fun crc_steps :: "int \<Rightarrow> byte list \<Rightarrow> int list" where
  "crc_steps crc [] = []"
| "crc_steps crc (b # data) =
     (crc XOR uint b) # crc_bits_trace 8 (crc XOR uint b) @ crc_steps (crc_byte crc b) data"

definition crc_trace :: "byte list \<Rightarrow> int list" where
  "crc_trace data = 0xFFFF # crc_steps 0xFFFF data"

definition fits16 :: "int \<Rightarrow> bool" where
  "fits16 v = (0 \<le> v \<and> v < 65536)"

subsection \<open>The checksum as the specification words it\<close>

text \<open>
  Standard Modbus CRC16 on a 16-bit register: initial value \<open>0xFFFF\<close>, each input byte
  is xor-ed into the low half, then eight times the register is shifted right by one bit
  and, when the bit shifted out was set, xor-ed with the polynomial \<open>0xA001\<close>. The result
  is sent low byte first.
\<close>

definition modbus_shift :: "16 word \<Rightarrow> 16 word" where
  "modbus_shift r = (if bit r 0 then drop_bit 1 r XOR 0xA001 else drop_bit 1 r)"

definition modbus_update :: "16 word \<Rightarrow> byte \<Rightarrow> 16 word" where
  "modbus_update r b = (modbus_shift ^^ 8) (r XOR ucast b)"

definition modbus_crc :: "byte list \<Rightarrow> 16 word" where
  "modbus_crc data = foldl modbus_update 0xFFFF data"

definition little_endian2 :: "16 word \<Rightarrow> byte list" where
  "little_endian2 r = [ucast r, ucast (drop_bit 8 r)]"

section \<open>Hex dump\<close>

text \<open>\<^verbatim>\<open>hexdump(b) = ' '.join(f"{x:02X}" for x in b)\<close>, the same in all three files.\<close>

definition hex_digit :: "nat \<Rightarrow> char" where
  "hex_digit d = ''0123456789ABCDEF'' ! d"

definition hex2 :: "byte \<Rightarrow> string" where
  "hex2 x = [hex_digit (unat x div 16), hex_digit (unat x mod 16)]"

fun join :: "string \<Rightarrow> string list \<Rightarrow> string" where
  "join sep [] = []"
| "join sep [s] = s"
| "join sep (s # t # ss) = s @ sep @ join sep (t # ss)"

definition hexdump :: "byte list \<Rightarrow> string" where
  "hexdump b = join '' '' (map hex2 b)"

section \<open>Frame builders\<close>

text \<open>\<^verbatim>\<open>frame + crc16(frame)\<close>.\<close>

definition append_crc :: "byte list \<Rightarrow> error + byte list" where
  "append_crc frame = (case crc16 frame of Inl e \<Rightarrow> Inl e | Inr crc \<Rightarrow> Inr (frame @ crc))"

text \<open>
  The \<^verbatim>\<open>if action == "on" ... elif action == "off" ... else raise\<close> block of
  \<^verbatim>\<open>build_relay_command\<close>, giving \<^verbatim>\<open>(data_hi, data_lo)\<close>.
\<close>

definition relay_data :: "string \<Rightarrow> error + int \<times> int" where
  "relay_data action =
     (if action = ''on'' then Inr (0x01, 0x00)
      else if action = ''off'' then Inr (0x02, 0x00)
      else Inl InvalidAction)"

text \<open>
  \<^verbatim>\<open>build_relay_command\<close> of \<^verbatim>\<open>modbus_mqtt_bridge_json.py\<close>: the channel is checked
  first, then the action.
\<close>

definition build_relay_command_json :: "int \<Rightarrow> int \<Rightarrow> string \<Rightarrow> error + byte list" where
  "build_relay_command_json device channel action =
     (if channel < 1 \<or> channel > 8 then Inl InvalidChannel
      else case relay_data action of
        Inl e \<Rightarrow> Inl e
      | Inr (data_hi, data_lo) \<Rightarrow>
          (case bytes_of [device, WRITE_REG, 0x00, channel, data_hi, data_lo] of
             Inl e \<Rightarrow> Inl e
           | Inr frame \<Rightarrow> append_crc frame))"

text \<open>
  \<^verbatim>\<open>build_relay_command\<close> of \<^verbatim>\<open>raw_modbus_test.py\<close> and of \<^verbatim>\<open>modbus_mqtt_bridge.py\<close>
  (the same text in both): the action is checked first, then the channel, and the body
  is printed before the checksum is appended. The first component is what the call has
  printed on standard output.
\<close>

definition build_relay_command_text :: "int \<Rightarrow> int \<Rightarrow> string \<Rightarrow> string list \<times> (error + byte list)" where
  "build_relay_command_text device channel action =
     (let reg_hi = 0x00; reg_lo = channel in
      case relay_data action of
        Inl e \<Rightarrow> ([], Inl e)
      | Inr (data_hi, data_lo) \<Rightarrow>
          if channel > 8 \<or> channel < 1 then ([], Inl InvalidChannel)
          else (case bytes_of [device, WRITE_REG, reg_hi, reg_lo, data_hi, data_lo] of
                  Inl e \<Rightarrow> ([], Inl e)
                | Inr frame_wo_crc \<Rightarrow>
                    ([''Frame without CRC: '' @ hexdump frame_wo_crc], append_crc frame_wo_crc)))"

text \<open>\<^verbatim>\<open>build_read_input\<close>, the same computation in all three files.\<close>

definition build_read_input :: "int \<Rightarrow> int \<Rightarrow> error + byte list" where
  "build_read_input device input_num =
     (let addr = 0x0080 + input_num in
      case bytes_of [device, READ_REG, drop_bit 8 addr AND 0xFF, addr AND 0xFF, 0x00, 0x01] of
        Inl e \<Rightarrow> Inl e
      | Inr frame \<Rightarrow> append_crc frame)"

text \<open>\<^verbatim>\<open>build_read_output\<close> of \<^verbatim>\<open>modbus_mqtt_bridge_json.py\<close>: the number goes into the frame as it is.\<close>

definition build_read_output :: "int \<Rightarrow> int \<Rightarrow> error + byte list" where
  "build_read_output device output_num =
     (case bytes_of [device, READ_REG, 0x00, output_num, 0x00, 0x01] of
        Inl e \<Rightarrow> Inl e
      | Inr frame \<Rightarrow> append_crc frame)"

text \<open>\<^verbatim>\<open>builst_read_output\<close> of \<^verbatim>\<open>raw_modbus_test.py\<close>: \<^verbatim>\<open>addr = output_num + 1\<close>.\<close>

definition builst_read_output_cli :: "int \<Rightarrow> int \<Rightarrow> error + byte list" where
  "builst_read_output_cli device output_num =
     (let addr = output_num + 1 in
      case bytes_of [device, READ_REG, drop_bit 8 addr AND 0xFF, addr AND 0xFF, 0x00, 0x01] of
        Inl e \<Rightarrow> Inl e
      | Inr frame_wo_crc \<Rightarrow> append_crc frame_wo_crc)"

text \<open>\<^verbatim>\<open>builst_read_output\<close> of \<^verbatim>\<open>modbus_mqtt_bridge.py\<close>: \<^verbatim>\<open>addr = output_num\<close>.\<close>

definition builst_read_output_mqtt :: "int \<Rightarrow> int \<Rightarrow> error + byte list" where
  "builst_read_output_mqtt device output_num =
     (let addr = output_num in
      case bytes_of [device, READ_REG, drop_bit 8 addr AND 0xFF, addr AND 0xFF, 0x00, 0x01] of
        Inl e \<Rightarrow> Inl e
      | Inr frame_wo_crc \<Rightarrow> append_crc frame_wo_crc)"

section \<open>Decoding a response\<close>

text \<open>
  The JSON bridge reports \<^verbatim>\<open>"on" if resp and resp[4] == 1 else "off"\<close> (commands
  \<^verbatim>\<open>input\<close> and \<^verbatim>\<open>status\<close>). An empty \<^verbatim>\<open>resp\<close> is falsy, so \<^verbatim>\<open>resp[4]\<close> is read
  only when the buffer is not empty.
\<close>

definition read_state_json :: "byte list \<Rightarrow> error + string" where
  "read_state_json resp =
     (if resp \<noteq> [] then
        (case index resp 4 of
           Inl e \<Rightarrow> Inl e
         | Inr v \<Rightarrow> Inr (if v = 1 then ''on'' else ''off''))
      else Inr ''off'')"

text \<open>
  The text-command programs print one of three lines for a read (commands \<^verbatim>\<open>in\<close>,
  \<^verbatim>\<open>status inp\<close>, \<^verbatim>\<open>status out\<close>): \<^verbatim>\<open>... is ON\<close>, \<^verbatim>\<open>... is OFF\<close> or
  \<^verbatim>\<open>No response (timeout)\<close>.
\<close>

datatype outcome = On | Off | Timeout

definition read_state_text :: "byte list \<Rightarrow> error + outcome" where
  "read_state_text resp =
     (let size = length resp in
      if size > 0 then
        (case index resp 4 of
           Inl e \<Rightarrow> Inl e
         | Inr v \<Rightarrow> Inr (if v = 1 then On else Off))
      else Inr Timeout)"

text \<open>
  What is reported for the response to a relay write:
  \<^item> \<^verbatim>\<open>output_all\<close> of the JSON bridge: \<^verbatim>\<open>hexdump(resp) if resp else None\<close>;
  \<^item> \<^verbatim>\<open>on all\<close> and \<^verbatim>\<open>off all\<close> of \<^verbatim>\<open>modbus_mqtt_bridge.py\<close>: the hex dump when
    \<^verbatim>\<open>len(resp) > 0\<close>, else \<^verbatim>\<open>No response (timeout)\<close>;
  \<^item> every other write path (\<^verbatim>\<open>output\<close> of the JSON bridge, \<^verbatim>\<open>out\<close> of both text
    programs, \<^verbatim>\<open>on all\<close> and \<^verbatim>\<open>off all\<close> of \<^verbatim>\<open>raw_modbus_test.py\<close>): the hex dump,
    whatever the buffer holds.
\<close>

definition write_response_json :: "byte list \<Rightarrow> string option" where
  "write_response_json resp = (if resp \<noteq> [] then Some (hexdump resp) else None)"

datatype write_report = Response string | No_response

definition write_report_mqtt :: "byte list \<Rightarrow> write_report" where
  "write_report_mqtt resp = (if length resp > 0 then Response (hexdump resp) else No_response)"

definition write_echo :: "byte list \<Rightarrow> string" where
  "write_echo resp = hexdump resp"

section \<open>The serial line\<close>

text \<open>
  The serial port is the one piece of state the commands share. \<open>written\<close> is every
  frame sent so far, \<open>rx\<close> the unread input buffer, and \<open>replies\<close> what the device will
  answer to the frames still to come (an empty answer is a device that stays silent).
\<close>

record serial =
  written :: "byte list list"
  rx :: "byte list"
  replies :: "byte list list"

definition reset_input_buffer :: "serial \<Rightarrow> serial" where
  "reset_input_buffer ser = ser\<lparr>rx := []\<rparr>"

definition ser_write :: "byte list \<Rightarrow> serial \<Rightarrow> serial" where
  "ser_write frame ser =
     (case replies ser of
        [] \<Rightarrow> ser\<lparr>written := written ser @ [frame]\<rparr>
      | r # rs \<Rightarrow> ser\<lparr>written := written ser @ [frame], rx := rx ser @ r, replies := rs\<rparr>)"

definition ser_read :: "nat \<Rightarrow> serial \<Rightarrow> byte list \<times> serial" where
  "ser_read n ser = (take n (rx ser), ser\<lparr>rx := drop n (rx ser)\<rparr>)"

text \<open>
  One request/response cycle:
  \<^verbatim>\<open>ser.reset_input_buffer(); ser.write(frame); time.sleep(...); resp = ser.read(256)\<close>.
\<close>

definition exchange :: "byte list \<Rightarrow> serial \<Rightarrow> byte list \<times> serial" where
  "exchange frame ser = ser_read 256 (ser_write frame (reset_input_buffer ser))"

section \<open>Commands\<close>

text \<open>
  \<^verbatim>\<open>output\<close> of the JSON bridge: the frame is built before the port is touched; an
  exception leaves the \<^verbatim>\<open>try\<close> block and is published as an error.
\<close>

definition output_json :: "int \<Rightarrow> int \<Rightarrow> string \<Rightarrow> serial \<Rightarrow> serial \<times> (error + string)" where
  "output_json device ch state ser =
     (case build_relay_command_json device ch state of
        Inl e \<Rightarrow> (ser, Inl e)
      | Inr frame \<Rightarrow> (case exchange frame ser of (resp, ser') \<Rightarrow> (ser', Inr (hexdump resp))))"

text \<open>
  \<^verbatim>\<open>out <n> <state>\<close> of the text programs, from the call of \<^verbatim>\<open>build_relay_command\<close>
  on: the serial line, the lines the builder printed, and the response echoed or the
  exception.
\<close>

definition out_text :: "int \<Rightarrow> int \<Rightarrow> string \<Rightarrow> serial \<Rightarrow> serial \<times> string list \<times> (error + string)" where
  "out_text device ch state ser =
     (case build_relay_command_text device ch state of
        (printed, Inl e) \<Rightarrow> (ser, printed, Inl e)
      | (printed, Inr frame) \<Rightarrow>
          (case exchange frame ser of (resp, ser') \<Rightarrow> (ser', printed, Inr (write_echo resp))))"

text \<open>
  \<^verbatim>\<open>status\<close> of the JSON bridge: \<^verbatim>\<open>for i in range(1, 9)\<close>, one cycle per channel,
  \<^verbatim>\<open>states.append({"channel": i, "state": ...})\<close>. An exception leaves the loop and
  the \<^verbatim>\<open>try\<close> block: the states gathered so far are not published.
\<close>

fun status_loop_json ::
  "string \<Rightarrow> int \<Rightarrow> int list \<Rightarrow> (int \<times> string) list \<Rightarrow> serial \<Rightarrow> serial \<times> (error + (int \<times> string) list)" where
  "status_loop_json target device [] states ser = (ser, Inr states)"
| "status_loop_json target device (i # rest) states ser =
     (case (if target = ''inputs'' then build_read_input device i else build_read_output device i) of
        Inl e \<Rightarrow> (ser, Inl e)
      | Inr frame \<Rightarrow>
          (case exchange frame ser of
             (resp, ser') \<Rightarrow>
               (case read_state_json resp of
                  Inl e \<Rightarrow> (ser', Inl e)
                | Inr st \<Rightarrow> status_loop_json target device rest (states @ [(i, st)]) ser')))"

definition status_json :: "string \<Rightarrow> int \<Rightarrow> serial \<Rightarrow> serial \<times> (error + (int \<times> string) list)" where
  "status_json target device ser = status_loop_json target device [1..8] [] ser"

text \<open>
  \<^verbatim>\<open>status inp\<close> and \<^verbatim>\<open>status out\<close> of \<^verbatim>\<open>raw_modbus_test.py\<close>: the same loop around
  \<^verbatim>\<open>build_read_input\<close> and \<^verbatim>\<open>builst_read_output\<close>. Each pass prints one line, kept
  here as the channel with its outcome; an exception ends the program after the lines
  already printed.
\<close>

fun status_loop_cli ::
  "(int \<Rightarrow> int \<Rightarrow> error + byte list) \<Rightarrow> int \<Rightarrow> int list \<Rightarrow> (int \<times> outcome) list \<Rightarrow> serial
     \<Rightarrow> serial \<times> (int \<times> outcome) list \<times> error option" where
  "status_loop_cli build device [] printed ser = (ser, printed, None)"
| "status_loop_cli build device (i # rest) printed ser =
     (case build device i of
        Inl e \<Rightarrow> (ser, printed, Some e)
      | Inr frame \<Rightarrow>
          (case exchange frame ser of
             (resp, ser') \<Rightarrow>
               (case read_state_text resp of
                  Inl e \<Rightarrow> (ser', printed, Some e)
                | Inr st \<Rightarrow> status_loop_cli build device rest (printed @ [(i, st)]) ser')))"

definition status_inp_cli :: "int \<Rightarrow> serial \<Rightarrow> serial \<times> (int \<times> outcome) list \<times> error option" where
  "status_inp_cli device ser = status_loop_cli build_read_input device [1..8] [] ser"

definition status_out_cli :: "int \<Rightarrow> serial \<Rightarrow> serial \<times> (int \<times> outcome) list \<times> error option" where
  "status_out_cli device ser = status_loop_cli builst_read_output_cli device [1..8] [] ser"

section \<open>The integer register is the 16-bit register\<close>

lemma crc_bit_uint: "crc_bit (uint r) = uint (modbus_shift r)"
proof -
  have "bit (uint r) 0 = bit r 0"
    by (simp add: bit_uint_iff)
  then have low: "uint r AND 1 \<noteq> 0 \<longleftrightarrow> bit r 0"
    by (simp add: and_one_eq bit_0 mod2_eq_if)
  have "uint r mod 65536 = uint r"
    using uint_lt2p [of r] by simp
  then have shift: "drop_bit 1 (uint r) = uint (drop_bit 1 r)"
    by (simp add: unsigned_drop_bit_eq take_bit_eq_mod)
  show ?thesis
    unfolding crc_bit_def modbus_shift_def low shift
    by (simp add: uint_xor)
qed

lemma crc_bits_uint: "crc_bits n (uint r) = uint ((modbus_shift ^^ n) r)"
  by (induction n arbitrary: r) (simp_all add: crc_bit_uint funpow_swap1)

lemma xor_byte_uint: "uint (r :: 16 word) XOR uint (b :: byte) = uint (r XOR ucast b)"
  by (simp add: uint_xor uint_up_ucast is_up)

lemma crc_byte_uint: "crc_byte (uint r) b = uint (modbus_update r b)"
  by (simp add: crc_byte_def modbus_update_def crc_bits_uint xor_byte_uint)

lemma crc_loop_uint: "crc_loop (uint r) data = uint (foldl modbus_update r data)"
  by (induction data arbitrary: r) (simp_all add: crc_byte_uint)

lemma crc_loop_modbus: "crc_loop 0xFFFF data = uint (modbus_crc data)"
  using crc_loop_uint [of "0xFFFF" data] by (simp add: modbus_crc_def)

lemma to_bytes2_little_uint: "to_bytes2_little (uint (r :: 16 word)) = Inr (little_endian2 r)"
proof -
  have bound: "uint r < 65536"
    using uint_lt2p [of r] by simp
  have m: "(255::int) = mask 8"
    by (simp add: mask_eq_exp_minus_1)
  have lo: "(word_of_int (uint r AND 0xFF) :: byte) = ucast r"
    unfolding m by (rule bit_word_eqI) (auto simp add: bit_simps)
  have hi: "(word_of_int (drop_bit 8 (uint r)) :: byte) = ucast (drop_bit 8 r)"
    by (rule bit_word_eqI) (auto simp add: bit_simps)
  show ?thesis
    using bound by (simp add: to_bytes2_little_def little_endian2_def lo hi)
qed

lemma crc16_little_endian2: "crc16 data = Inr (little_endian2 (modbus_crc data))"
  by (simp add: crc16_def crc_loop_modbus to_bytes2_little_uint)

lemma fits16_uint: "fits16 (uint (r :: 16 word))"
  using uint_lt2p [of r] by (simp add: fits16_def)

lemma crc_bits_trace_fits16: "list_all fits16 (crc_bits_trace n (uint (r :: 16 word)))"
  by (induction n arbitrary: r) (simp_all add: crc_bit_uint fits16_uint)

lemma crc_steps_fits16: "list_all fits16 (crc_steps (uint (r :: 16 word)) data)"
proof (induction data arbitrary: r)
  case Nil
  show ?case by simp
next
  case (Cons b data)
  have "list_all fits16 (crc_bits_trace 8 (uint (r XOR ucast b)))"
    by (rule crc_bits_trace_fits16)
  moreover have "list_all fits16 (crc_steps (uint (modbus_update r b)) data)"
    by (rule Cons.IH)
  ultimately show ?case
    by (simp add: xor_byte_uint crc_byte_uint fits16_uint)
qed

lemma crc_trace_fits16: "list_all fits16 (crc_trace data)"
  using crc_steps_fits16 [of "0xFFFF" data] by (simp add: crc_trace_def fits16_def)

lemma crc_bits_trace_last: "last (crc # crc_bits_trace n crc) = crc_bits n crc"
  by (induction n arbitrary: crc) simp_all

lemma crc_steps_last: "last (crc # crc_steps crc data) = crc_loop crc data"
proof (induction data arbitrary: crc)
  case Nil
  show ?case by simp
next
  case (Cons b data)
  have "last ((crc XOR uint b) # crc_bits_trace 8 (crc XOR uint b)) = crc_byte crc b"
    by (simp only: crc_bits_trace_last crc_byte_def)
  then have "last (crc # crc_steps crc (b # data)) = last (crc_byte crc b # crc_steps (crc_byte crc b) data)"
    by (cases "crc_steps (crc_byte crc b) data") (simp_all add: last_append)
  then show ?case
    by (simp only: Cons.IH crc_loop.simps)
qed

lemma crc_trace_last: "last (crc_trace data) = crc_loop 0xFFFF data"
  by (simp only: crc_trace_def crc_steps_last)

subsection \<open>Reference vectors\<close>

lemma crc_loop_chan1_open: "crc_loop 0xFFFF [1, 6, 0, 1, 1, 0] = 0x9AD9"
  by code_simp

lemma crc_loop_chan1_close: "crc_loop 0xFFFF [1, 6, 0, 1, 2, 0] = 0x6AD9"
  by code_simp

lemma crc_loop_read_ch1: "crc_loop 0xFFFF [1, 3, 0, 1, 0, 1] = 0xCAD5"
  by code_simp

lemma crc16_chan1_open: "crc16 [1, 6, 0, 1, 1, 0] = Inr [0xD9, 0x9A]"
  unfolding crc16_def crc_loop_chan1_open by (simp add: to_bytes2_little_def)

lemma crc16_chan1_close: "crc16 [1, 6, 0, 1, 2, 0] = Inr [0xD9, 0x6A]"
  unfolding crc16_def crc_loop_chan1_close by (simp add: to_bytes2_little_def)

lemma crc16_read_ch1: "crc16 [1, 3, 0, 1, 0, 1] = Inr [0xD5, 0xCA]"
  unfolding crc16_def crc_loop_read_ch1 by (simp add: to_bytes2_little_def)

section \<open>Claims about the checksum\<close>

text \<open>
  C1. \<^verbatim>\<open>crc16\<close> is the Modbus CRC16: for every input it returns, low byte first, the
  16-bit register obtained from \<open>0xFFFF\<close> by xor-ing in each byte and shifting eight
  times with the polynomial \<open>0xA001\<close>. On the body \<open>01 06 00 01 01 00\<close> it returns
  \<open>D9 9A\<close>, on \<open>01 06 00 01 02 00\<close> it returns \<open>D9 6A\<close>, and on \<open>01 03 00 01 00 01\<close>
  it returns \<open>D5 CA\<close>.
\<close>

theorem crc16_modbus:
  "crc16 data = Inr (little_endian2 (modbus_crc data))
   \<and> crc16 [0x01, 0x06, 0x00, 0x01, 0x01, 0x00] = Inr [0xD9, 0x9A]
   \<and> crc16 [0x01, 0x06, 0x00, 0x01, 0x02, 0x00] = Inr [0xD9, 0x6A]
   \<and> crc16 [0x01, 0x03, 0x00, 0x01, 0x00, 0x01] = Inr [0xD5, 0xCA]"
  by (intro conjI crc16_little_endian2 crc16_chan1_open crc16_chan1_close crc16_read_ch1)

text \<open>
  C10. For every input, \<^verbatim>\<open>crc16\<close> returns exactly two bytes (the function is total:
  the recursion is over the input list and over the eight passes). Every value the
  register takes on the way, after each xor and after each shift, lies in
  \<open>[0, 2^16)\<close>, and the last of them is the one handed to \<^verbatim>\<open>to_bytes\<close>, so the
  conversion cannot fail.
\<close>

theorem crc16_two_bytes:
  "(\<exists>lo hi. crc16 data = Inr [lo, hi])
   \<and> list_all fits16 (crc_trace data)
   \<and> last (crc_trace data) = crc_loop 0xFFFF data
   \<and> crc16 data \<noteq> Inl OverflowError"
proof -
  have "crc16 data = Inr [ucast (modbus_crc data), ucast (drop_bit 8 (modbus_crc data))]"
    by (simp only: crc16_little_endian2 little_endian2_def)
  then show ?thesis
    by (simp add: crc_trace_fits16 crc_trace_last)
qed

theorem crc16_two_bytes_witness:
  "(\<exists>lo hi. crc16 [0x01, 0x03, 0x00, 0x01, 0x00, 0x01] = Inr [lo, hi])
   \<and> list_all fits16 (crc_trace [0x01, 0x03, 0x00, 0x01, 0x00, 0x01])
   \<and> last (crc_trace [0x01, 0x03, 0x00, 0x01, 0x00, 0x01]) = crc_loop 0xFFFF [0x01, 0x03, 0x00, 0x01, 0x00, 0x01]
   \<and> crc16 [0x01, 0x03, 0x00, 0x01, 0x00, 0x01] \<noteq> Inl OverflowError"
  by (rule crc16_two_bytes)

section \<open>Frames\<close>

lemma append_crc_total: "append_crc frame = Inr (frame @ little_endian2 (modbus_crc frame))"
  by (simp add: append_crc_def crc16_little_endian2)

lemma bytes_of_body:
  "bytes_of [a, b, c, d, e, f] =
     (if in_byte_range a \<and> in_byte_range b \<and> in_byte_range c \<and> in_byte_range d
         \<and> in_byte_range e \<and> in_byte_range f
      then Inr [word_of_int a, word_of_int b, word_of_int c, word_of_int d, word_of_int e, word_of_int f]
      else Inl BytesRange)"
  by (simp add: bytes_of_def)

lemma uint_byte_of_int: "in_byte_range x \<Longrightarrow> uint (word_of_int x :: byte) = x"
  by (simp add: in_byte_range_def uint_word_of_int_eq take_bit_eq_mod)

lemma in_byte_range_low: "in_byte_range (x AND 0xFF)"
proof -
  have "x AND 255 \<le> 255"
    by (rule AND_upper2) simp
  then show ?thesis
    by (simp add: in_byte_range_def)
qed

lemma in_byte_range_consts:
  "in_byte_range 0" "in_byte_range 1" "in_byte_range 2" "in_byte_range 3" "in_byte_range 6"
  by (simp_all add: in_byte_range_def)

lemma frame_shape:
  "length (little_endian2 r) = 2"
  "length ([a, b, c, d, e, f] @ little_endian2 r) = 8"
  "take 6 ([a, b, c, d, e, f] @ little_endian2 r) = [a, b, c, d, e, f]"
  "drop 6 ([a, b, c, d, e, f] @ little_endian2 r) = little_endian2 r"
  by (simp_all add: little_endian2_def)

lemma build_relay_command_json_ok:
  assumes "in_byte_range device" "1 \<le> channel" "channel \<le> 8" "action = ''on'' \<or> action = ''off''"
  shows "build_relay_command_json device channel action =
     Inr ([word_of_int device, 0x06, 0x00, word_of_int channel, if action = ''on'' then 0x01 else 0x02, 0x00]
          @ little_endian2 (modbus_crc [word_of_int device, 0x06, 0x00, word_of_int channel, if action = ''on'' then 0x01 else 0x02, 0x00]))"
  using assms
  by (auto simp add: build_relay_command_json_def relay_data_def bytes_of_body append_crc_total
      in_byte_range_def WRITE_REG_def)

lemma build_relay_command_text_ok:
  assumes "in_byte_range device" "1 \<le> channel" "channel \<le> 8" "action = ''on'' \<or> action = ''off''"
  shows "snd (build_relay_command_text device channel action) =
     Inr ([word_of_int device, 0x06, 0x00, word_of_int channel, if action = ''on'' then 0x01 else 0x02, 0x00]
          @ little_endian2 (modbus_crc [word_of_int device, 0x06, 0x00, word_of_int channel, if action = ''on'' then 0x01 else 0x02, 0x00]))"
  using assms
  by (auto simp add: build_relay_command_text_def relay_data_def bytes_of_body append_crc_total
      in_byte_range_def WRITE_REG_def)

lemma and_255: "(x::int) AND 0xFF = x mod 256"
proof -
  have m: "(255::int) = mask 8"
    by (simp add: mask_eq_exp_minus_1)
  have "x AND mask 8 = take_bit 8 x"
    by (simp only: take_bit_eq_mask)
  also have "\<dots> = x mod 2 ^ 8"
    by (simp only: take_bit_eq_mod)
  finally show ?thesis
    unfolding m [symmetric] by simp
qed

lemma drop_bit_8: "drop_bit 8 (x::int) = x div 256"
  by (simp add: drop_bit_eq_div)

lemma relay_chan1_on:
  "build_relay_command_json 1 1 ''on'' = Inr [0x01, 0x06, 0x00, 0x01, 0x01, 0x00, 0xD9, 0x9A]"
  "snd (build_relay_command_text 1 1 ''on'') = Inr [0x01, 0x06, 0x00, 0x01, 0x01, 0x00, 0xD9, 0x9A]"
  by (simp_all add: build_relay_command_json_def build_relay_command_text_def relay_data_def
      bytes_of_body in_byte_range_def WRITE_REG_def append_crc_def crc16_chan1_open)

lemma frame_nth:
  "([a, b, c, d, e, f] @ t) ! 0 = a" "([a, b, c, d, e, f] @ t) ! 1 = b"
  "([a, b, c, d, e, f] @ t) ! 2 = c" "([a, b, c, d, e, f] @ t) ! 3 = d"
  "([a, b, c, d, e, f] @ t) ! 4 = e" "([a, b, c, d, e, f] @ t) ! 5 = f"
  by (simp_all add: nth_Cons')

lemma uint_byte_mod: "uint (word_of_int x :: byte) = x mod 256"
  by (simp add: uint_word_of_int_eq take_bit_eq_mod)

lemma read_body:
  assumes "in_byte_range device"
  shows "bytes_of [device, READ_REG, drop_bit 8 addr AND 0xFF, addr AND 0xFF, 0x00, 0x01] =
           Inr [word_of_int device, 0x03, word_of_int (addr div 256), word_of_int addr, 0x00, 0x01]"
proof -
  have hi: "(word_of_int (drop_bit 8 addr AND 0xFF) :: byte) = word_of_int (addr div 256)"
    by (simp add: and_255 drop_bit_8 word_of_int_eq_iff take_bit_eq_mod)
  have lo: "(word_of_int (addr AND 0xFF) :: byte) = word_of_int addr"
    by (simp add: and_255 word_of_int_eq_iff take_bit_eq_mod)
  show ?thesis
    using assms hi lo
    by (simp add: bytes_of_body in_byte_range_low in_byte_range_consts READ_REG_def)
qed

lemma build_read_input_total:
  assumes "in_byte_range device"
  shows "build_read_input device input_num =
     Inr ([word_of_int device, 0x03, word_of_int ((0x0080 + input_num) div 256), word_of_int (0x0080 + input_num), 0x00, 0x01]
          @ little_endian2 (modbus_crc [word_of_int device, 0x03, word_of_int ((0x0080 + input_num) div 256), word_of_int (0x0080 + input_num), 0x00, 0x01]))"
  by (simp add: build_read_input_def Let_def read_body [OF assms] append_crc_total)

lemma builst_read_output_cli_total:
  assumes "in_byte_range device"
  shows "builst_read_output_cli device output_num =
     Inr ([word_of_int device, 0x03, word_of_int ((output_num + 1) div 256), word_of_int (output_num + 1), 0x00, 0x01]
          @ little_endian2 (modbus_crc [word_of_int device, 0x03, word_of_int ((output_num + 1) div 256), word_of_int (output_num + 1), 0x00, 0x01]))"
  by (simp add: builst_read_output_cli_def Let_def read_body [OF assms] append_crc_total)

lemma builst_read_output_mqtt_total:
  assumes "in_byte_range device"
  shows "builst_read_output_mqtt device output_num =
     Inr ([word_of_int device, 0x03, word_of_int (output_num div 256), word_of_int output_num, 0x00, 0x01]
          @ little_endian2 (modbus_crc [word_of_int device, 0x03, word_of_int (output_num div 256), word_of_int output_num, 0x00, 0x01]))"
  by (simp add: builst_read_output_mqtt_def Let_def read_body [OF assms] append_crc_total)

lemma build_read_output_ok:
  assumes "in_byte_range device" "in_byte_range output_num"
  shows "build_read_output device output_num =
     Inr ([word_of_int device, 0x03, 0x00, word_of_int output_num, 0x00, 0x01]
          @ little_endian2 (modbus_crc [word_of_int device, 0x03, 0x00, word_of_int output_num, 0x00, 0x01]))"
  using assms
  by (simp add: build_read_output_def bytes_of_body in_byte_range_consts READ_REG_def append_crc_total)

lemma build_read_output_bad_device:
  assumes "\<not> in_byte_range device"
  shows "build_read_output device output_num = Inl BytesRange"
    and "builst_read_output_cli device output_num = Inl BytesRange"
    and "builst_read_output_mqtt device output_num = Inl BytesRange"
    and "build_read_input device input_num = Inl BytesRange"
  using assms
  by (simp_all add: build_read_output_def builst_read_output_cli_def builst_read_output_mqtt_def
      build_read_input_def bytes_of_body Let_def)

text \<open>The text-command bridge addresses output status like the JSON bridge.\<close>

lemma builst_read_output_mqtt_agrees:
  assumes "in_byte_range output_num"
  shows "builst_read_output_mqtt device output_num = build_read_output device output_num"
proof (cases "in_byte_range device")
  case True
  have "output_num div 256 = 0"
    using assms by (simp add: in_byte_range_def)
  then show ?thesis
    using True assms by (simp add: builst_read_output_mqtt_total build_read_output_ok)
next
  case False
  then show ?thesis
    by (simp add: build_read_output_bad_device)
qed

section \<open>Responses and the status loops\<close>

lemma index_4: "5 \<le> length resp \<Longrightarrow> index resp 4 = Inr (resp ! 4)"
  by (simp add: index_def)

lemma index_4_short: "length resp < 5 \<Longrightarrow> index resp 4 = Inl IndexError"
  by (simp add: index_def)

lemma read_state_json_long:
  "5 \<le> length resp \<Longrightarrow> read_state_json resp = Inr (if resp ! 4 = 1 then ''on'' else ''off'')"
  by (auto simp add: read_state_json_def index_4)

lemma read_state_text_long:
  "5 \<le> length resp \<Longrightarrow> read_state_text resp = Inr (if resp ! 4 = 1 then On else Off)"
  by (auto simp add: read_state_text_def index_4)

lemma read_state_short:
  assumes "1 \<le> length resp" "length resp < 5"
  shows "read_state_json resp = Inl IndexError" and "read_state_text resp = Inl IndexError"
  using assms by (auto simp add: read_state_json_def read_state_text_def index_4_short)

lemma read_state_empty:
  "read_state_json [] = Inr ''off''" "read_state_text [] = Inr Timeout"
  by (simp_all add: read_state_json_def read_state_text_def)

lemma exchange_reply:
  assumes "replies ser = r # rs"
  shows "exchange frame ser =
           (take 256 r, ser\<lparr>written := written ser @ [frame], rx := drop 256 r, replies := rs\<rparr>)"
  using assms by (simp add: exchange_def ser_read_def ser_write_def reset_input_buffer_def)

lemma read_state_json_take:
  assumes "r = [] \<or> 5 \<le> length r"
  shows "read_state_json (take 256 r) = Inr (if r \<noteq> [] \<and> r ! 4 = 1 then ''on'' else ''off'')"
proof (cases "r = []")
  case True
  then show ?thesis by (simp add: read_state_empty)
next
  case False
  with assms have "5 \<le> length (take 256 r)" and "take 256 r ! 4 = r ! 4"
    by simp_all
  with False show ?thesis
    by (simp add: read_state_json_long)
qed

lemma read_state_text_take:
  assumes "r = [] \<or> 5 \<le> length r"
  shows "read_state_text (take 256 r) = Inr (if r = [] then Timeout else if r ! 4 = 1 then On else Off)"
proof (cases "r = []")
  case True
  then show ?thesis by (simp add: read_state_empty)
next
  case False
  with assms have "5 \<le> length (take 256 r)" and "take 256 r ! 4 = r ! 4"
    by simp_all
  with False show ?thesis
    by (simp add: read_state_text_long)
qed

lemma status_loop_json_run:
  assumes "length rs = length cs"
    and "\<forall>r\<in>set rs. r = [] \<or> 5 \<le> length r"
    and "\<forall>i\<in>set cs. \<exists>frame. (if target = ''inputs'' then build_read_input device i else build_read_output device i) = Inr frame"
    and "replies ser = rs"
  shows "snd (status_loop_json target device cs states ser)
           = Inr (states @ map2 (\<lambda>i r. (i, if r \<noteq> [] \<and> r ! 4 = 1 then ''on'' else ''off'')) cs rs)
       \<and> map Inr (written (fst (status_loop_json target device cs states ser)))
           = map Inr (written ser) @ map (\<lambda>i. if target = ''inputs'' then build_read_input device i else build_read_output device i) cs"
  using assms
proof (induction cs arbitrary: rs states ser)
  case Nil
  then show ?case by simp
next
  case (Cons i cs)
  from Cons.prems(1) obtain r rs' where rs: "rs = r # rs'" and len: "length rs' = length cs"
    by (cases rs) simp_all
  from Cons.prems(3) obtain frame where
    frame: "(if target = ''inputs'' then build_read_input device i else build_read_output device i) = Inr frame"
    by auto
  let ?ser = "ser\<lparr>written := written ser @ [frame], rx := drop 256 r, replies := rs'\<rparr>"
  have ex: "exchange frame ser = (take 256 r, ?ser)"
    using Cons.prems(4) rs by (simp add: exchange_reply)
  have dec: "read_state_json (take 256 r) = Inr (if r \<noteq> [] \<and> r ! 4 = 1 then ''on'' else ''off'')"
    using Cons.prems(2) rs by (simp add: read_state_json_take)
  have step: "status_loop_json target device (i # cs) states ser
      = status_loop_json target device cs (states @ [(i, if r \<noteq> [] \<and> r ! 4 = 1 then ''on'' else ''off'')]) ?ser"
    by (simp only: status_loop_json.simps frame ex dec sum.case prod.case)
  have ih: "snd (status_loop_json target device cs (states @ [(i, if r \<noteq> [] \<and> r ! 4 = 1 then ''on'' else ''off'')]) ?ser)
           = Inr ((states @ [(i, if r \<noteq> [] \<and> r ! 4 = 1 then ''on'' else ''off'')]) @ map2 (\<lambda>i r. (i, if r \<noteq> [] \<and> r ! 4 = 1 then ''on'' else ''off'')) cs rs')
       \<and> map Inr (written (fst (status_loop_json target device cs (states @ [(i, if r \<noteq> [] \<and> r ! 4 = 1 then ''on'' else ''off'')]) ?ser)))
           = map Inr (written ?ser) @ map (\<lambda>i. if target = ''inputs'' then build_read_input device i else build_read_output device i) cs"
    using len Cons.prems(2,3) rs by (intro Cons.IH) simp_all
  show ?case
    unfolding step using ih frame rs by simp
qed

lemma status_loop_cli_run:
  assumes "length rs = length cs"
    and "\<forall>r\<in>set rs. r = [] \<or> 5 \<le> length r"
    and "\<forall>i\<in>set cs. \<exists>frame. build device i = Inr frame"
    and "replies ser = rs"
  shows "snd (status_loop_cli build device cs printed ser)
           = (printed @ map2 (\<lambda>i r. (i, if r = [] then Timeout else if r ! 4 = 1 then On else Off)) cs rs, None)
       \<and> map Inr (written (fst (status_loop_cli build device cs printed ser)))
           = map Inr (written ser) @ map (build device) cs"
  using assms
proof (induction cs arbitrary: rs printed ser)
  case Nil
  then show ?case by simp
next
  case (Cons i cs)
  from Cons.prems(1) obtain r rs' where rs: "rs = r # rs'" and len: "length rs' = length cs"
    by (cases rs) simp_all
  from Cons.prems(3) obtain frame where frame: "build device i = Inr frame"
    by auto
  let ?ser = "ser\<lparr>written := written ser @ [frame], rx := drop 256 r, replies := rs'\<rparr>"
  let ?st = "if r = [] then Timeout else if r ! 4 = 1 then On else Off"
  have ex: "exchange frame ser = (take 256 r, ?ser)"
    using Cons.prems(4) rs by (simp add: exchange_reply)
  have dec: "read_state_text (take 256 r) = Inr ?st"
    using Cons.prems(2) rs by (simp add: read_state_text_take)
  have step: "status_loop_cli build device (i # cs) printed ser
      = status_loop_cli build device cs (printed @ [(i, ?st)]) ?ser"
    by (simp only: status_loop_cli.simps frame ex dec sum.case prod.case)
  have ih: "snd (status_loop_cli build device cs (printed @ [(i, ?st)]) ?ser)
           = ((printed @ [(i, ?st)]) @ map2 (\<lambda>i r. (i, if r = [] then Timeout else if r ! 4 = 1 then On else Off)) cs rs', None)
       \<and> map Inr (written (fst (status_loop_cli build device cs (printed @ [(i, ?st)]) ?ser)))
           = map Inr (written ?ser) @ map (build device) cs"
    using len Cons.prems(2,3) rs by (intro Cons.IH) simp_all
  show ?case
    unfolding step using ih frame rs by simp
qed

lemma channels_1_to_8: "[1..8] = [1, 2, 3, 4, 5, 6, 7, 8 :: int]"
  by (simp add: upto_rec1)

lemma read_builders_return:
  assumes "in_byte_range device"
  shows "\<exists>frame. build_read_input device i = Inr frame"
    and "\<exists>frame. builst_read_output_cli device i = Inr frame"
    and "in_byte_range i \<Longrightarrow> \<exists>frame. build_read_output device i = Inr frame"
  using assms
  by (simp_all add: build_read_input_total builst_read_output_cli_total build_read_output_ok)

lemma crc_loop_input_9: "crc_loop 0xFFFF [0x01, 0x03, 0x00, 0x89, 0x00, 0x01] = 0xE055"
  by code_simp

section \<open>Claims about the frame builders\<close>

text \<open>
  C2. For every device in \<open>[1, 247]\<close>, channel in \<open>[1, 8]\<close> and action \<open>on\<close> or
  \<open>off\<close>, \<^verbatim>\<open>build_relay_command\<close> (JSON bridge and text programs alike) returns a
  frame of exactly 8 bytes: byte 0 is the device, byte 1 is \<open>0x06\<close>, byte 2 is \<open>0x00\<close>,
  byte 3 is the channel, bytes 4-5 are \<open>(0x01, 0x00)\<close> for on and \<open>(0x02, 0x00)\<close> for
  off, and bytes 6-7 are \<^verbatim>\<open>crc16\<close> of bytes 0-5. \<^verbatim>\<open>build_relay_command(1, 1, "on")\<close>
  is \<open>01 06 00 01 01 00 D9 9A\<close>.
\<close>

theorem build_relay_command_frame:
  assumes "1 \<le> device" "device \<le> 247" "1 \<le> channel" "channel \<le> 8"
    and "action = ''on'' \<or> action = ''off''"
  shows "(\<exists>frame.
            build_relay_command_json device channel action = Inr frame
          \<and> snd (build_relay_command_text device channel action) = Inr frame
          \<and> length frame = 8
          \<and> uint (frame ! 0) = device \<and> frame ! 1 = 0x06 \<and> frame ! 2 = 0x00
          \<and> uint (frame ! 3) = channel
          \<and> (frame ! 4, frame ! 5) = (if action = ''on'' then (0x01, 0x00) else (0x02, 0x00))
          \<and> crc16 (take 6 frame) = Inr (drop 6 frame))
       \<and> build_relay_command_json 1 1 ''on'' = Inr [0x01, 0x06, 0x00, 0x01, 0x01, 0x00, 0xD9, 0x9A]
       \<and> snd (build_relay_command_text 1 1 ''on'') = Inr [0x01, 0x06, 0x00, 0x01, 0x01, 0x00, 0xD9, 0x9A]"
proof -
  have dev: "in_byte_range device" and chan: "in_byte_range channel"
    using assms by (simp_all add: in_byte_range_def)
  let ?body = "[word_of_int device, 0x06, 0x00, word_of_int channel,
                if action = ''on'' then 0x01 else 0x02, 0x00] :: byte list"
  let ?frame = "?body @ little_endian2 (modbus_crc ?body)"
  have json: "build_relay_command_json device channel action = Inr ?frame"
    using dev assms(3-5) by (rule build_relay_command_json_ok)
  have txt_eq: "snd (build_relay_command_text device channel action) = Inr ?frame"
    using dev assms(3-5) by (rule build_relay_command_text_ok)
  have shape: "length ?frame = 8" "take 6 ?frame = ?body" "drop 6 ?frame = little_endian2 (modbus_crc ?body)"
    by (simp_all only: frame_shape)
  have crc: "crc16 (take 6 ?frame) = Inr (drop 6 ?frame)"
    by (simp only: shape crc16_little_endian2)
  have bytes: "uint (?frame ! 0) = device" "?frame ! 1 = 0x06" "?frame ! 2 = 0x00"
    "uint (?frame ! 3) = channel"
    "(?frame ! 4, ?frame ! 5) = (if action = ''on'' then (0x01, 0x00) else (0x02, 0x00))"
    using uint_byte_of_int [OF dev] uint_byte_of_int [OF chan] by (simp_all add: nth_Cons')
  from json txt_eq shape(1) bytes crc relay_chan1_on show ?thesis
    by blast
qed

theorem build_relay_command_frame_witness:
  "(1::int) \<le> 5 \<and> (5::int) \<le> 247 \<and> (1::int) \<le> 3 \<and> (3::int) \<le> 8
   \<and> (\<exists>frame.
            build_relay_command_json 5 3 ''off'' = Inr frame
          \<and> snd (build_relay_command_text 5 3 ''off'') = Inr frame
          \<and> length frame = 8
          \<and> uint (frame ! 0) = 5 \<and> frame ! 1 = 0x06 \<and> frame ! 2 = 0x00
          \<and> uint (frame ! 3) = 3
          \<and> (frame ! 4, frame ! 5) = (0x02, 0x00)
          \<and> crc16 (take 6 frame) = Inr (drop 6 frame))"
  using build_relay_command_frame [of 5 3 "''off''"] by simp

text \<open>
  C3. For every device and every channel \<open>ch\<close> in \<open>[1, 8]\<close>, the output-status
  builders of the JSON bridge (\<^verbatim>\<open>build_read_output\<close>) and of the interactive command
  line (\<^verbatim>\<open>builst_read_output\<close> of \<^verbatim>\<open>raw_modbus_test.py\<close>) differ only in the register
  address: byte 3 is \<open>ch\<close> in the first and \<open>ch + 1\<close> in the second. Both put the
  device in byte 0, function code \<open>0x03\<close> in byte 1, \<open>0x00\<close> in byte 2 and the payload
  \<open>(0x00, 0x01)\<close> in bytes 4-5, followed by the checksum of their own body; a device
  that is not a byte makes both fail in \<^verbatim>\<open>bytes([...])\<close>.
\<close>

theorem read_output_register_address:
  assumes "1 \<le> ch" "ch \<le> 8"
  shows "if in_byte_range device
         then (\<exists>crc_json crc_cli.
                 build_read_output device ch
                   = Inr ([word_of_int device, 0x03, 0x00, word_of_int ch, 0x00, 0x01] @ crc_json)
               \<and> builst_read_output_cli device ch
                   = Inr ([word_of_int device, 0x03, 0x00, word_of_int (ch + 1), 0x00, 0x01] @ crc_cli)
               \<and> crc16 [word_of_int device, 0x03, 0x00, word_of_int ch, 0x00, 0x01] = Inr crc_json
               \<and> crc16 [word_of_int device, 0x03, 0x00, word_of_int (ch + 1), 0x00, 0x01] = Inr crc_cli
               \<and> length crc_json = 2 \<and> length crc_cli = 2
               \<and> uint (word_of_int device :: byte) = device
               \<and> uint (word_of_int ch :: byte) = ch
               \<and> uint (word_of_int (ch + 1) :: byte) = ch + 1)
         else build_read_output device ch = Inl BytesRange
            \<and> builst_read_output_cli device ch = Inl BytesRange"
proof (cases "in_byte_range device")
  case True
  have ch: "in_byte_range ch" and ch1: "in_byte_range (ch + 1)"
    using assms by (simp_all add: in_byte_range_def)
  have hi: "(ch + 1) div 256 = 0"
    using assms by simp
  let ?bj = "[word_of_int device, 0x03, 0x00, word_of_int ch, 0x00, 0x01] :: byte list"
  let ?bc = "[word_of_int device, 0x03, 0x00, word_of_int (ch + 1), 0x00, 0x01] :: byte list"
  have json: "build_read_output device ch = Inr (?bj @ little_endian2 (modbus_crc ?bj))"
    using True ch by (rule build_read_output_ok)
  have cli: "builst_read_output_cli device ch = Inr (?bc @ little_endian2 (modbus_crc ?bc))"
    using builst_read_output_cli_total [OF True, of ch] by (simp add: hi)
  from json cli True show ?thesis
    using uint_byte_of_int [OF True] uint_byte_of_int [OF ch] uint_byte_of_int [OF ch1]
    by (simp add: crc16_little_endian2 frame_shape)
next
  case False
  then show ?thesis
    by (simp add: build_read_output_bad_device)
qed

theorem read_output_register_address_witness:
  "(1::int) \<le> 1 \<and> (1::int) \<le> 8
   \<and> (\<exists>crc_json crc_cli.
         build_read_output 1 1 = Inr ([0x01, 0x03, 0x00, 0x01, 0x00, 0x01] @ crc_json)
       \<and> builst_read_output_cli 1 1 = Inr ([0x01, 0x03, 0x00, 0x02, 0x00, 0x01] @ crc_cli)
       \<and> length crc_json = 2 \<and> length crc_cli = 2)"
  using read_output_register_address [of 1 1] by (auto simp add: in_byte_range_def)

text \<open>
  C6, as the code has it. \<^verbatim>\<open>build_read_input\<close> does not check the channel: for
  every channel number, inside \<open>[1, 8]\<close> or not, and every device that is a byte, it
  returns the 8-byte frame with function code \<open>0x03\<close>, the low 16 bits of
  \<open>0x0080 + channel\<close> as register address (high byte, then low byte), the payload
  \<open>(0x00, 0x01)\<close> and the checksum of these six bytes. For a channel in \<open>[1, 8]\<close>
  the register address is \<open>0x0080 + channel\<close> itself, with high byte \<open>0x00\<close>.
\<close>

theorem build_read_input_frame:
  assumes "in_byte_range device"
  shows "\<exists>frame.
            build_read_input device channel = Inr frame
          \<and> length frame = 8
          \<and> uint (frame ! 0) = device \<and> frame ! 1 = 0x03
          \<and> uint (frame ! 2) = (0x0080 + channel) div 256 mod 256
          \<and> uint (frame ! 3) = (0x0080 + channel) mod 256
          \<and> frame ! 4 = 0x00 \<and> frame ! 5 = 0x01
          \<and> crc16 (take 6 frame) = Inr (drop 6 frame)
          \<and> (1 \<le> channel \<and> channel \<le> 8 \<longrightarrow> frame ! 2 = 0x00 \<and> uint (frame ! 3) = 0x0080 + channel)"
proof -
  let ?addr = "0x0080 + channel"
  let ?body = "[word_of_int device, 0x03, word_of_int (?addr div 256), word_of_int ?addr, 0x00, 0x01] :: byte list"
  let ?frame = "?body @ little_endian2 (modbus_crc ?body)"
  have built: "build_read_input device channel = Inr ?frame"
    using assms by (rule build_read_input_total)
  have shape: "length ?frame = 8" "take 6 ?frame = ?body" "drop 6 ?frame = little_endian2 (modbus_crc ?body)"
    by (simp_all only: frame_shape)
  have crc: "crc16 (take 6 ?frame) = Inr (drop 6 ?frame)"
    by (simp only: shape crc16_little_endian2)
  have bytes: "uint (?frame ! 0) = device" "?frame ! 1 = 0x03"
    "uint (?frame ! 2) = ?addr div 256 mod 256" "uint (?frame ! 3) = ?addr mod 256"
    "?frame ! 4 = 0x00" "?frame ! 5 = 0x01"
    using uint_byte_of_int [OF assms]
    by (simp_all only: frame_nth uint_byte_mod)
  have inside: "1 \<le> channel \<and> channel \<le> 8 \<longrightarrow> ?frame ! 2 = 0x00 \<and> uint (?frame ! 3) = ?addr"
  proof
    assume ch: "1 \<le> channel \<and> channel \<le> 8"
    then have "?addr div 256 = 0" and "?addr mod 256 = ?addr"
      by simp_all
    then show "?frame ! 2 = 0x00 \<and> uint (?frame ! 3) = ?addr"
      by (simp only: frame_nth uint_byte_mod) simp
  qed
  from built shape(1) bytes crc inside show ?thesis
    by blast
qed

theorem build_read_input_frame_witness:
  "in_byte_range 1
   \<and> (\<exists>frame.
            build_read_input 1 9 = Inr frame
          \<and> length frame = 8
          \<and> uint (frame ! 0) = 1 \<and> frame ! 1 = 0x03
          \<and> uint (frame ! 2) = 0
          \<and> uint (frame ! 3) = 0x89
          \<and> frame ! 4 = 0x00 \<and> frame ! 5 = 0x01
          \<and> crc16 (take 6 frame) = Inr (drop 6 frame))
   \<and> (1::int) \<le> 5 \<and> (5::int) \<le> 8
   \<and> (\<exists>frame. build_read_input 1 5 = Inr frame \<and> frame ! 2 = 0x00 \<and> uint (frame ! 3) = 0x85)"
proof -
  have dev: "in_byte_range 1"
    by (simp add: in_byte_range_def)
  show ?thesis
    using dev build_read_input_frame [OF dev, of 9] build_read_input_frame [OF dev, of 5]
    by auto
qed

text \<open>
  C6 as stated fails: channel 9 is outside \<open>[1, 8]\<close>, and \<^verbatim>\<open>build_read_input(1, 9)\<close>
  raises nothing and returns the frame for register \<open>0x0089\<close>.
\<close>

theorem build_read_input_channel_9:
  "build_read_input 1 9 = Inr [0x01, 0x03, 0x00, 0x89, 0x00, 0x01, 0x55, 0xE0]"
proof -
  have "crc16 [0x01, 0x03, 0x00, 0x89, 0x00, 0x01] = Inr [0x55, 0xE0]"
    unfolding crc16_def crc_loop_input_9 by (simp add: to_bytes2_little_def)
  then show ?thesis
    by (simp add: build_read_input_def bytes_of_body in_byte_range_def READ_REG_def
        and_255 drop_bit_8 append_crc_def)
qed

text \<open>
  C7, as the code has it. For every channel outside \<open>[1, 8]\<close>,
  \<^verbatim>\<open>build_relay_command\<close> raises before it builds or prints anything, and the command
  that called it leaves the serial line untouched. The JSON bridge raises the channel
  error whatever the action is. The text programs check the action first: they raise
  the channel error when the action is \<open>on\<close> or \<open>off\<close>, and the action error
  otherwise.
\<close>

theorem build_relay_command_invalid_channel:
  assumes "channel < 1 \<or> 8 < channel"
  shows "build_relay_command_json device channel action = Inl InvalidChannel
       \<and> output_json device channel action ser = (ser, Inl InvalidChannel)
       \<and> build_relay_command_text device channel action
           = ([], Inl (if action = ''on'' \<or> action = ''off'' then InvalidChannel else InvalidAction))
       \<and> out_text device channel action ser
           = (ser, [], Inl (if action = ''on'' \<or> action = ''off'' then InvalidChannel else InvalidAction))"
  using assms
  by (auto simp add: build_relay_command_json_def output_json_def build_relay_command_text_def
      out_text_def relay_data_def)

theorem build_relay_command_invalid_channel_witness:
  "((9::int) < 1 \<or> (8::int) < 9)
   \<and> build_relay_command_json 1 9 ''on'' = Inl InvalidChannel
   \<and> output_json 1 9 ''on'' \<lparr>written = [], rx = [], replies = []\<rparr>
        = (\<lparr>written = [], rx = [], replies = []\<rparr>, Inl InvalidChannel)
   \<and> build_relay_command_text 1 9 ''on'' = ([], Inl InvalidChannel)
   \<and> out_text 1 9 ''on'' \<lparr>written = [], rx = [], replies = []\<rparr>
        = (\<lparr>written = [], rx = [], replies = []\<rparr>, [], Inl InvalidChannel)"
  using build_relay_command_invalid_channel [of 9 1 "''on''" "\<lparr>written = [], rx = [], replies = []\<rparr>"]
  by simp

text \<open>
  C7 as stated fails for the text programs: with channel 9 and the action
  \<open>toggle\<close> the error raised is the one about the action, not the one about the
  channel.
\<close>

theorem build_relay_command_text_checks_action_first:
  "build_relay_command_text 1 9 ''toggle'' = ([], Inl InvalidAction)"
  by (simp add: build_relay_command_text_def relay_data_def)

section \<open>Claims about decoding\<close>

text \<open>
  C4. The claim is that a response of 1 to 4 bytes is decoded to a value (unknown,
  malformed) without any exception. The code reads \<^verbatim>\<open>resp[4]\<close> as soon as the buffer
  is not empty: on the 3-byte response \<open>01 03 02\<close> both decoders raise
  \<^verbatim>\<open>IndexError\<close>.
\<close>

theorem read_decode_short_buffer_raises:
  "read_state_json [0x01, 0x03, 0x02] = Inl IndexError
   \<and> read_state_text [0x01, 0x03, 0x02] = Inl IndexError"
  by (simp add: read_state_json_def read_state_text_def index_def)

text \<open>
  C5, as the code has it. On an empty response the text programs report a timeout
  for a read, and \<^verbatim>\<open>modbus_mqtt_bridge.py\<close> does so for the writes of \<^verbatim>\<open>on all\<close> and
  \<^verbatim>\<open>off all\<close>. The JSON bridge reports the state \<open>off\<close> for a read and \<^verbatim>\<open>None\<close>
  for the writes of \<^verbatim>\<open>output_all\<close>. The other write paths echo the hex dump of the
  buffer, which is the empty string.
\<close>

theorem empty_response_reports:
  "read_state_text [] = Inr Timeout
   \<and> write_report_mqtt [] = No_response
   \<and> read_state_json [] = Inr ''off''
   \<and> write_response_json [] = None
   \<and> write_echo [] = ''''"
  by (simp add: read_state_text_def write_report_mqtt_def read_state_json_def
      write_response_json_def write_echo_def hexdump_def)

text \<open>
  C5 as stated fails in the JSON bridge: an empty buffer is decoded as \<open>off\<close>.
\<close>

theorem read_state_json_empty_is_off:
  "read_state_json [] = Inr ''off''"
  by (simp add: read_state_json_def)

text \<open>
  C9. For every response of at least 5 bytes a read decode looks at the byte at
  offset 4: the value 1 gives on, any other value gives off. In particular a 5-byte
  response ending in 1 decodes to on and one ending in 0 decodes to off.
\<close>

theorem read_decode_offset_4:
  assumes "5 \<le> length resp"
  shows "read_state_json resp = Inr (if resp ! 4 = 1 then ''on'' else ''off'')
       \<and> read_state_text resp = Inr (if resp ! 4 = 1 then On else Off)
       \<and> read_state_json [a, b, c, d, 1] = Inr ''on''
       \<and> read_state_json [a, b, c, d, 0] = Inr ''off''
       \<and> read_state_text [a, b, c, d, 1] = Inr On
       \<and> read_state_text [a, b, c, d, 0] = Inr Off"
  using assms
  by (simp add: read_state_json_long read_state_text_long)

theorem read_decode_offset_4_witness:
  "5 \<le> length [0x01, 0x03, 0x02, 0x00, 0x01 :: byte]
   \<and> read_state_json [0x01, 0x03, 0x02, 0x00, 0x01] = Inr ''on''
   \<and> read_state_text [0x01, 0x03, 0x02, 0x00, 0x01] = Inr On"
  using read_decode_offset_4 [of "[0x01, 0x03, 0x02, 0x00, 0x01]"] by simp

section \<open>Claims about the batch status poll\<close>

text \<open>
  C8, as the code has it. When each of the eight responses is empty or at least 5
  bytes long, the status poll sends the read frames of channels 1 to 8 in ascending
  order, all eight of them, and gathers one result per channel in the same order, 8
  results in all. A channel whose response is empty is reported as a timeout by the
  interactive command line and as \<open>off\<close> by the JSON bridge; in both the channels
  after it are still polled.
\<close>

theorem status_poll_all_channels:
  assumes "in_byte_range device" and "replies ser = rs" and "length rs = 8"
    and "\<forall>r\<in>set rs. r = [] \<or> 5 \<le> length r"
  shows "snd (status_inp_cli device ser)
           = (map2 (\<lambda>i r. (i, if r = [] then Timeout else if r ! 4 = 1 then On else Off))
                [1, 2, 3, 4, 5, 6, 7, 8] rs, None)
       \<and> length (fst (snd (status_inp_cli device ser))) = 8
       \<and> map Inr (written (fst (status_inp_cli device ser)))
           = map Inr (written ser) @ map (build_read_input device) [1, 2, 3, 4, 5, 6, 7, 8]
       \<and> snd (status_out_cli device ser)
           = (map2 (\<lambda>i r. (i, if r = [] then Timeout else if r ! 4 = 1 then On else Off))
                [1, 2, 3, 4, 5, 6, 7, 8] rs, None)
       \<and> map Inr (written (fst (status_out_cli device ser)))
           = map Inr (written ser) @ map (builst_read_output_cli device) [1, 2, 3, 4, 5, 6, 7, 8]
       \<and> snd (status_json target device ser)
           = Inr (map2 (\<lambda>i r. (i, if r \<noteq> [] \<and> r ! 4 = 1 then ''on'' else ''off''))
                [1, 2, 3, 4, 5, 6, 7, 8] rs)
       \<and> map Inr (written (fst (status_json target device ser)))
           = map Inr (written ser)
             @ map (\<lambda>i. if target = ''inputs'' then build_read_input device i else build_read_output device i)
                 [1, 2, 3, 4, 5, 6, 7, 8]"
proof -
  let ?cs = "[1, 2, 3, 4, 5, 6, 7, 8] :: int list"
  have len: "length rs = length ?cs"
    using assms(3) by simp
  have chans: "\<forall>i\<in>set ?cs. in_byte_range i"
    by (simp add: in_byte_range_def)
  have inp: "\<forall>i\<in>set ?cs. \<exists>frame. build_read_input device i = Inr frame"
    using read_builders_return(1) [OF assms(1)] by blast
  have out: "\<forall>i\<in>set ?cs. \<exists>frame. builst_read_output_cli device i = Inr frame"
    using read_builders_return(2) [OF assms(1)] by blast
  have json: "\<forall>i\<in>set ?cs. \<exists>frame.
      (if target = ''inputs'' then build_read_input device i else build_read_output device i) = Inr frame"
    using read_builders_return(1,3) [OF assms(1)] chans by simp
  note cli_inp = status_loop_cli_run
      [where build = build_read_input and device = device and printed = "[]", OF len assms(4) inp assms(2)]
  note cli_out = status_loop_cli_run
      [where build = builst_read_output_cli and device = device and printed = "[]", OF len assms(4) out assms(2)]
  note js = status_loop_json_run [where states = "[]", OF len assms(4) json assms(2)]
  have l8: "length (fst (snd (status_inp_cli device ser))) = 8"
    using cli_inp assms(3) by (simp add: status_inp_cli_def channels_1_to_8)
  from cli_inp cli_out js l8 show ?thesis
    by (simp add: status_inp_cli_def status_out_cli_def status_json_def channels_1_to_8)
qed

theorem status_poll_all_channels_witness:
  "in_byte_range 1
   \<and> snd (status_inp_cli 1
          \<lparr>written = [], rx = [],
           replies = [[0x01, 0x03, 0x02, 0x00, 0x01], [0x01, 0x03, 0x02, 0x00, 0x00], [],
                      [0x01, 0x03, 0x02, 0x00, 0x01], [0x01, 0x03, 0x02, 0x00, 0x01],
                      [0x01, 0x03, 0x02, 0x00, 0x01], [0x01, 0x03, 0x02, 0x00, 0x01],
                      [0x01, 0x03, 0x02, 0x00, 0x01]]\<rparr>)
     = ([(1, On), (2, Off), (3, Timeout), (4, On), (5, On), (6, On), (7, On), (8, On)], None)"
proof -
  have dev: "in_byte_range 1"
    by (simp add: in_byte_range_def)
  show ?thesis
    using dev
      status_poll_all_channels [OF dev, of
        "\<lparr>written = [], rx = [],
           replies = [[0x01, 0x03, 0x02, 0x00, 0x01], [0x01, 0x03, 0x02, 0x00, 0x00], [],
                      [0x01, 0x03, 0x02, 0x00, 0x01], [0x01, 0x03, 0x02, 0x00, 0x01],
                      [0x01, 0x03, 0x02, 0x00, 0x01], [0x01, 0x03, 0x02, 0x00, 0x01],
                      [0x01, 0x03, 0x02, 0x00, 0x01]]\<rparr>"
        "[[0x01, 0x03, 0x02, 0x00, 0x01], [0x01, 0x03, 0x02, 0x00, 0x00], [],
                      [0x01, 0x03, 0x02, 0x00, 0x01], [0x01, 0x03, 0x02, 0x00, 0x01],
                      [0x01, 0x03, 0x02, 0x00, 0x01], [0x01, 0x03, 0x02, 0x00, 0x01],
                      [0x01, 0x03, 0x02, 0x00, 0x01]]" "''inputs''"]
    by simp
qed

text \<open>
  C8 as stated fails in the JSON bridge: with channel 3 silent, slot 2 of the result
  holds \<open>off\<close>, not a timeout.
\<close>

theorem status_json_silent_channel_is_off:
  "snd (status_json ''inputs'' 1
          \<lparr>written = [], rx = [],
           replies = [[0x01, 0x03, 0x02, 0x00, 0x01], [0x01, 0x03, 0x02, 0x00, 0x00], [],
                      [0x01, 0x03, 0x02, 0x00, 0x01], [0x01, 0x03, 0x02, 0x00, 0x01],
                      [0x01, 0x03, 0x02, 0x00, 0x01], [0x01, 0x03, 0x02, 0x00, 0x01],
                      [0x01, 0x03, 0x02, 0x00, 0x01]]\<rparr>)
     = Inr [(1, ''on''), (2, ''off''), (3, ''off''), (4, ''on''), (5, ''on''), (6, ''on''),
            (7, ''on''), (8, ''on'')]"
proof -
  let ?rs = "[[0x01, 0x03, 0x02, 0x00, 0x01], [0x01, 0x03, 0x02, 0x00, 0x00], [],
              [0x01, 0x03, 0x02, 0x00, 0x01], [0x01, 0x03, 0x02, 0x00, 0x01],
              [0x01, 0x03, 0x02, 0x00, 0x01], [0x01, 0x03, 0x02, 0x00, 0x01],
              [0x01, 0x03, 0x02, 0x00, 0x01]] :: byte list list"
  have dev: "in_byte_range 1"
    by (simp add: in_byte_range_def)
  have "snd (status_loop_json ''inputs'' 1 [1, 2, 3, 4, 5, 6, 7, 8] [] \<lparr>written = [], rx = [], replies = ?rs\<rparr>)
      = Inr ([] @ map2 (\<lambda>i r. (i, if r \<noteq> [] \<and> r ! 4 = 1 then ''on'' else ''off'')) [1, 2, 3, 4, 5, 6, 7, 8] ?rs)"
    by (rule status_loop_json_run [THEN conjunct1]) (simp_all add: read_builders_return [OF dev])
  then show ?thesis
    by (simp add: status_json_def channels_1_to_8)
qed

end
